theory Spec2Isabelle
  imports Main "HOL-Library.Sublist"
begin

text \<open>
  The authentication subsystem of the Pomodoro Spotify extension: the local redirect
  listener (\<^verbatim>\<open>AuthCallbackServer\<close>), the PKCE values, and the part of \<^verbatim>\<open>SpotifyService\<close>
  that runs the OAuth flow and keeps the tokens. What the platform decides (random bytes,
  the hash, the outcome of \<^verbatim>\<open>listen\<close>, the answers of the token endpoint, the clock) is
  an argument of the function that meets it. The state is what the flow itself reads and
  writes: the fields of the two classes, the promises, the server objects, the stored
  tokens, the requests sent and the URLs opened. What is only shown to the user (the
  messages of \<^verbatim>\<open>vscode.window\<close>, among them the shared client id notice that
  \<^verbatim>\<open>getClientId\<close> starts, and the console) and the list of usage entries that
  \<^verbatim>\<open>logClientIdUsage\<close> keeps are not part of it.
\<close>

section \<open>JavaScript values\<close>

text \<open>
  An error object as the extension sees it: the constructor's name, the message and the
  \<^verbatim>\<open>code\<close> property that Node attaches to system errors (\<^verbatim>\<open>undefined\<close> on an error
  made with \<^verbatim>\<open>new Error(message)\<close>).
\<close>

datatype js_error = JsError (err_name: string) (err_message: string) (err_code: "string option")

definition newError :: "string \<Rightarrow> js_error" where
  "newError m = JsError ''Error'' m None"

text \<open>
  Truthiness of a value that is a string, \<^verbatim>\<open>null\<close> or \<^verbatim>\<open>undefined\<close>: absent values and
  the empty string are falsy.
\<close>

definition truthy :: "string option \<Rightarrow> bool" where
  "truthy v = (case v of None \<Rightarrow> False | Some x \<Rightarrow> x \<noteq> [])"

text \<open>Decimal rendering of a number in a template literal.\<close>

fun showNat :: "nat \<Rightarrow> string" where
  "showNat n =
     (if n < 10 then [char_of (48 + n)]
      else showNat (n div 10) @ [char_of (48 + n mod 10)])"

declare showNat.simps [simp del]

text \<open>\<^verbatim>\<open>Array.prototype.join\<close>, and the lines of a template literal joined by newlines.\<close>

fun joinWith :: "string \<Rightarrow> string list \<Rightarrow> string" where
  "joinWith sep [] = []"
| "joinWith sep [l] = l"
| "joinWith sep (l # ls) = l @ sep @ joinWith sep ls"

definition joinLines :: "string list \<Rightarrow> string" where
  "joinLines ls = joinWith [CHR 0x0A] ls"

section \<open>AuthCallbackServer\<close>

text \<open>
  \<^verbatim>\<open>private server: http.Server | null\<close> is a reference to a Node server object. The
  objects made by \<^verbatim>\<open>http.createServer\<close> live in \<open>httpServers\<close>, one flag each that says
  whether the object is bound and listening; \<open>server\<close> is \<open>None\<close> for \<^verbatim>\<open>null\<close> and
  otherwise an index into \<open>httpServers\<close>.
\<close>

record AuthCallbackServer =
  server :: "nat option"
  httpServers :: "bool list"

definition port :: nat where
  "port = 3000"

definition newAuthCallbackServer :: AuthCallbackServer where
  "newAuthCallbackServer = \<lparr>server = None, httpServers = []\<rparr>"

text \<open>
  What \<^verbatim>\<open>server.listen(port, '127.0.0.1', cb)\<close> leads to: the listening callback, or an
  \<^verbatim>\<open>'error'\<close> event with the error object of the operating system.
\<close>

datatype listen_event = Listening | ListenError js_error

definition portInUseError :: js_error where
  "portInUseError = newError (''Port '' @ showNat port @
     '' is already in use. Please ensure no other application is using this port and try again.'')"

text \<open>
  \<^verbatim>\<open>startServer\<close>: the new server object replaces \<open>server\<close> before the outcome of
  \<^verbatim>\<open>listen\<close> is known; the promise resolves with the port or rejects with an error.
\<close>

definition startServer :: "listen_event \<Rightarrow> AuthCallbackServer \<Rightarrow> (js_error + nat) \<times> AuthCallbackServer" where
  "startServer ev a =
     (let h = length (httpServers a);
          a' = a\<lparr>server := Some h, httpServers := httpServers a @ [False]\<rparr>
      in case ev of
           ListenError error \<Rightarrow>
             (if err_code error = Some ''EADDRINUSE'' then (Inl portInUseError, a')
              else (Inl error, a'))
         | Listening \<Rightarrow> (Inr port, a'\<lparr>httpServers := (httpServers a')[h := True]\<rparr>))"

text \<open>\<^verbatim>\<open>stopServer\<close>: \<^verbatim>\<open>if (this.server) { this.server.close(); this.server = null; }\<close>\<close>

definition stopServer :: "AuthCallbackServer \<Rightarrow> AuthCallbackServer" where
  "stopServer a =
     (case server a of
        None \<Rightarrow> a
      | Some h \<Rightarrow> a\<lparr>httpServers := (httpServers a)[h := False], server := None\<rparr>)"

definition getCallbackUrl :: string where
  "getCallbackUrl = ''http://127.0.0.1:'' @ showNat port @ ''/callback''"

text \<open>
  \<^verbatim>\<open>getErrorPageHtml\<close> is one template literal with a single substitution,
  \<^verbatim>\<open>${error}\<close>: the text before it, the argument as it is, the text after it.
\<close>

definition errorPageHead :: string where
  \<open>errorPageHead = joinLines [
     ''<!DOCTYPE html>'',
     ''<html lang="en">'',
     ''<head>'',
     ''    <meta charset="UTF-8">'',
     ''    <meta name="viewport" content="width=device-width, initial-scale=1.0">'',
     ''    <title>Spotify Authorization - Error</title>'',
     ''    <style>'',
     ''        body {'',
     ''            font-family: -apple-system, BlinkMacSystemFont, 'Segoe UI', Roboto, Oxygen, Ubuntu, Cantarell, sans-serif;'',
     ''            background: linear-gradient(135deg, #dc2626, #ef4444);'',
     ''            color: white;'',
     ''            margin: 0;'',
     ''            padding: 0;'',
     ''            display: flex;'',
     ''            justify-content: center;'',
     ''            align-items: center;'',
     ''            height: 100vh;'',
     ''            text-align: center;'',
     ''        }'',
     ''        .container {'',
     ''            background: rgba(0, 0, 0, 0.1);'',
     ''            backdrop-filter: blur(10px);'',
     ''            padding: 3rem;'',
     ''            border-radius: 20px;'',
     ''            max-width: 500px;'',
     ''            box-shadow: 0 8px 32px rgba(0, 0, 0, 0.3);'',
     ''        }'',
     ''        .error-icon {'',
     ''            font-size: 4rem;'',
     ''            margin-bottom: 1rem;'',
     ''        }'',
     ''        h1 {'',
     ''            margin: 1rem 0;'',
     ''            font-size: 2rem;'',
     ''            font-weight: 300;'',
     ''        }'',
     ''        p {'',
     ''            font-size: 1.1rem;'',
     ''            line-height: 1.6;'',
     ''            margin: 1.5rem 0;'',
     ''            opacity: 0.9;'',
     ''        }'',
     ''        .error-info {'',
     ''            background: rgba(255, 255, 255, 0.1);'',
     ''            padding: 1rem;'',
     ''            border-radius: 10px;'',
     ''            margin: 1.5rem 0;'',
     ''            border: 1px solid rgba(255, 255, 255, 0.2);'',
     ''        }'',
     ''        .footer {'',
     ''            margin-top: 2rem;'',
     ''            font-size: 0.9rem;'',
     ''            opacity: 0.7;'',
     ''        }'',
     ''    </style>'',
     ''</head>'',
     ''<body>'',
     ''    <div class="container">'',
     ''        <div class="error-icon">'' @ [CHR 0xE2, CHR 0x9D, CHR 0x8C] @ ''</div>'',
     ''        <h1>Authorization Failed</h1>'',
     ''        <p>There was an error during the Spotify authorization process.</p>'',
     ''        '',
     ''        <div class="error-info">'',
     ''            <strong>Error: '']\<close>

definition errorPageTail :: string where
  \<open>errorPageTail = joinLines [
     ''</strong>'',
     ''        </div>'',
     ''        '',
     ''        <p>Please return to VS Code and try the authorization process again. You can safely close this browser tab.</p>'',
     ''        '',
     ''        <div class="footer">'',
     ''            VSCode Pomodoro Spotify Extension'',
     ''        </div>'',
     ''    </div>'',
     ''</body>'',
     ''</html>'']\<close>

definition getErrorPageHtml :: "string \<Rightarrow> string" where
  "getErrorPageHtml error = errorPageHead @ error @ errorPageTail"

text \<open>
  The escaping that the welcome view applies to values it interpolates into HTML
  (\<^verbatim>\<open>WelcomeWebview.htmlEscape\<close>): five global replacements, one character at a time.
\<close>

definition htmlEscapeChar :: "char \<Rightarrow> string" where
  \<open>htmlEscapeChar c =
     (if c = CHR ''&'' then ''&amp;''
      else if c = CHR ''<'' then ''&lt;''
      else if c = CHR ''>'' then ''&gt;''
      else if c = CHR 0x22 then ''&quot;''
      else if c = CHR 0x27 then ''&#039;''
      else [c])\<close>

definition htmlEscape :: "string \<Rightarrow> string" where
  "htmlEscape unsafe = concat (map htmlEscapeChar unsafe)"

text \<open>
  The response of the listener to \<^verbatim>\<open>GET /callback\<close>, by the parsed query: the success
  page and the hand-off to the editor after three seconds, the error page, or status 400.
\<close>

record callback_query =
  code_param :: "string option"
  error_param :: "string option"
  state_param :: "string option"

datatype http_reply =
    SuccessPage string string
  | ErrorPage string
  | BadRequest string

definition errorOrBadRequest :: "callback_query \<Rightarrow> http_reply" where
  "errorOrBadRequest query =
     (case error_param query of
        Some error \<Rightarrow>
          if error \<noteq> [] then ErrorPage (getErrorPageHtml error)
          else BadRequest ''Error: Missing authorization code or error parameter''
      | None \<Rightarrow> BadRequest ''Error: Missing authorization code or error parameter'')"

definition handleCallback :: "callback_query \<Rightarrow> http_reply" where
  "handleCallback query =
     (case code_param query of
        Some code \<Rightarrow>
          if code \<noteq> [] then
            SuccessPage code (case state_param query of None \<Rightarrow> [] | Some st \<Rightarrow> st)
          else errorOrBadRequest query
      | None \<Rightarrow> errorOrBadRequest query)"

section \<open>PKCE generator\<close>

text \<open>
  A Node \<^verbatim>\<open>Buffer\<close> is a list of bytes. \<^verbatim>\<open>buffer.toString('base64url')\<close> is the base 64
  encoding with the URL-safe alphabet of RFC 4648 and no padding: three bytes give four
  characters, a rest of two bytes gives three and a rest of one byte gives two.
\<close>

type_synonym buffer = "char list"

definition base64urlAlphabet :: string where
  "base64urlAlphabet = ''ABCDEFGHIJKLMNOPQRSTUVWXYZabcdefghijklmnopqrstuvwxyz0123456789-_''"

definition base64urlChar :: "nat \<Rightarrow> char" where
  "base64urlChar i = base64urlAlphabet ! (i mod 64)"

fun base64url :: "buffer \<Rightarrow> string" where
  "base64url (a # b # c # rest) =
     [base64urlChar (of_char a div 4),
      base64urlChar (of_char a mod 4 * 16 + of_char b div 16),
      base64urlChar (of_char b mod 16 * 4 + of_char c div 64),
      base64urlChar (of_char c mod 64)] @ base64url rest"
| "base64url [a, b] =
     [base64urlChar (of_char a div 4),
      base64urlChar (of_char a mod 4 * 16 + of_char b div 16),
      base64urlChar (of_char b mod 16 * 4)]"
| "base64url [a] =
     [base64urlChar (of_char a div 4),
      base64urlChar (of_char a mod 4 * 16)]"
| "base64url [] = []"

text \<open>
  \<^verbatim>\<open>crypto.randomBytes(n)\<close> takes the next \<open>n\<close> bytes of the system's random source,
  here the stream \<open>entropy\<close> as it stands at the call. \<^verbatim>\<open>crypto.createHash('sha256')\<close> is
  the parameter \<open>sha256\<close>, from the bytes of the text to the digest; the verifier is
  hashed as the bytes of its characters.
\<close>

definition randomBytes :: "(nat \<Rightarrow> char) \<Rightarrow> nat \<Rightarrow> buffer" where
  "randomBytes entropy n = map entropy [0..<n]"

definition generateCodeVerifier :: "(nat \<Rightarrow> char) \<Rightarrow> string" where
  "generateCodeVerifier entropy = base64url (randomBytes entropy 32)"

definition generateCodeChallenge :: "(buffer \<Rightarrow> buffer) \<Rightarrow> string \<Rightarrow> string" where
  "generateCodeChallenge sha256 codeVerifier = base64url (sha256 codeVerifier)"

section \<open>SpotifyService: state\<close>

text \<open>
  The promise returned by \<^verbatim>\<open>authenticate\<close> is an object of its own: each call makes a
  new one, and the \<^verbatim>\<open>resolve\<close> and \<^verbatim>\<open>reject\<close> functions stored in
  \<^verbatim>\<open>pendingAuthResolve\<close> and \<^verbatim>\<open>pendingAuthReject\<close> refer to it. The promises made so far
  are the list \<open>promises\<close>; a stored continuation is the index of its promise. Settling a
  promise that is already settled does nothing, as in JavaScript.
\<close>

datatype promise_state = Pending | Fulfilled | Rejected js_error

definition settle :: "nat \<Rightarrow> promise_state \<Rightarrow> promise_state list \<Rightarrow> promise_state list" where
  "settle p v ps = (if p < length ps \<and> ps ! p = Pending then ps[p := v] else ps)"

text \<open>
  The token endpoint's JSON answer, with the fields the service reads, and what an HTTPS
  request ends in: an \<^verbatim>\<open>'error'\<close> event, or a response with its status, its body and the
  result of \<^verbatim>\<open>JSON.parse\<close> on the body (the error it throws, or the object).
\<close>

record token_data =
  access_token :: string
  refresh_token :: "string option"
  expires_in :: int

datatype http_outcome =
    RequestError js_error
  | Response nat string "js_error + token_data"

text \<open>The form posted to \<^verbatim>\<open>accounts.spotify.com/api/token\<close>, by grant type.\<close>

datatype token_request =
    AuthorizationCodeGrant (grant_code: string) (grant_redirect_uri: string)
      (grant_client_id: string) (grant_code_verifier: string)
  | RefreshTokenGrant string string

record auth_url =
  url_client_id :: string
  url_redirect_uri :: string
  url_scope :: string
  url_code_challenge :: string
  url_state :: string

text \<open>
  The fields of the service, the two stores of the extension context it reads and writes
  (\<open>secrets\<close>, and \<open>globalState\<close> for its numbers: the expiry timestamp in milliseconds
  and the count of uses of the shared client id), the client id settings, and what the
  service has sent out so far: the requests to the token endpoint, the events fired on
  \<^verbatim>\<open>onAuthStateChange\<close> and the authorization URLs opened.
\<close>

record SpotifyService =
  codeVerifier :: string
  authState :: string
  pendingAuthResolve :: "nat option"
  pendingAuthReject :: "nat option"
  authCallbackServer :: "AuthCallbackServer option"
  redirectUri :: string
  settingsClientId :: string
  envClientId :: "string option"
  secrets :: "string \<rightharpoonup> string"
  globalState :: "string \<rightharpoonup> int"
  promises :: "promise_state list"
  tokenRequests :: "token_request list"
  authStateEvents :: "bool list"
  openedUrls :: "auth_url list"

definition ACCESS_TOKEN_KEY :: string where
  "ACCESS_TOKEN_KEY = ''spotify_access_token''"

definition REFRESH_TOKEN_KEY :: string where
  "REFRESH_TOKEN_KEY = ''spotify_refresh_token''"

definition TOKEN_EXPIRY_KEY :: string where
  "TOKEN_EXPIRY_KEY = ''spotify_token_expiry''"

definition SCOPES :: "string list" where
  "SCOPES = [''user-read-playback-state'', ''user-modify-playback-state'',
     ''playlist-read-private'', ''playlist-read-collaborative'']"

text \<open>The constructor, on the stores and settings of the extension context.\<close>

definition newSpotifyService ::
  "string \<Rightarrow> string option \<Rightarrow> (string \<rightharpoonup> string) \<Rightarrow> (string \<rightharpoonup> int) \<Rightarrow> SpotifyService" where
  "newSpotifyService settings env sec gs =
     \<lparr>codeVerifier = [], authState = [], pendingAuthResolve = None, pendingAuthReject = None,
      authCallbackServer = Some newAuthCallbackServer,
      redirectUri = ''http://127.0.0.1:3000/callback'',
      settingsClientId = settings, envClientId = env, secrets = sec, globalState = gs,
      promises = [], tokenRequests = [], authStateEvents = [],
      openedUrls = []\<rparr>"

text \<open>
  \<^verbatim>\<open>getClientId\<close>: the setting, else the environment variable, else the built-in id. On
  the last branch the source also starts \<^verbatim>\<open>showSharedClientIdWarning\<close>, which shows a
  notice to the user unless the user has dismissed it before; the notice and the flag of
  its dismissal are read by nothing else and are not part of the state.
\<close>

definition getClientId :: "SpotifyService \<Rightarrow> string" where
  "getClientId s =
     (if settingsClientId s \<noteq> [] then settingsClientId s
      else if truthy (envClientId s) then (case envClientId s of Some c \<Rightarrow> c | None \<Rightarrow> [])
      else ''c8bb1453d9954a9db7cceb166fdeb4d5'')"

text \<open>\<^verbatim>\<open>this.authCallbackServer?.stopServer()\<close>\<close>

definition stopListener :: "SpotifyService \<Rightarrow> SpotifyService" where
  "stopListener s = s\<lparr>authCallbackServer := map_option stopServer (authCallbackServer s)\<rparr>"

text \<open>\<^verbatim>\<open>if (this.pendingAuthReject) { this.pendingAuthReject(e); }\<close>\<close>

definition rejectPending :: "js_error \<Rightarrow> SpotifyService \<Rightarrow> SpotifyService" where
  "rejectPending e s =
     (case pendingAuthReject s of
        None \<Rightarrow> s
      | Some p \<Rightarrow> s\<lparr>promises := settle p (Rejected e) (promises s)\<rparr>)"

text \<open>
  A listener is running when some server object of the callback server is listening. In
  the states that \<^verbatim>\<open>authenticate\<close> reaches from an idle service, the only server object
  that may be listening is the one \<open>server\<close> refers to.
\<close>

definition listenerRunning :: "SpotifyService \<Rightarrow> bool" where
  "listenerRunning s =
     (case authCallbackServer s of None \<Rightarrow> False | Some a \<Rightarrow> True \<in> set (httpServers a))"

definition onlyCurrentListener :: "SpotifyService \<Rightarrow> bool" where
  "onlyCurrentListener s =
     (case authCallbackServer s of
        None \<Rightarrow> True
      | Some a \<Rightarrow>
          (case server a of
             None \<Rightarrow> True \<notin> set (httpServers a)
           | Some h \<Rightarrow> True \<notin> set ((httpServers a)[h := False])))"

section \<open>SpotifyService: authentication\<close>

text \<open>
  \<^verbatim>\<open>openAuthUrl\<close> draws the verifier and then the state from the random source and opens
  the authorization URL, kept here by its query parameters.
\<close>

definition openAuthUrl :: "(nat \<Rightarrow> char) \<Rightarrow> (buffer \<Rightarrow> buffer) \<Rightarrow> SpotifyService \<Rightarrow> SpotifyService" where
  "openAuthUrl entropy sha256 s =
     (let verifier = generateCodeVerifier entropy;
          st = base64url (randomBytes (\<lambda>i. entropy (32 + i)) 32);
          codeChallenge = generateCodeChallenge sha256 verifier
      in s\<lparr>codeVerifier := verifier, authState := st,
           openedUrls := openedUrls s @
             [\<lparr>url_client_id = getClientId s, url_redirect_uri = redirectUri s,
               url_scope = joinWith '' '' SCOPES, url_code_challenge = codeChallenge,
               url_state = st\<rparr>]\<rparr>)"

text \<open>
  \<^verbatim>\<open>logClientIdUsage\<close> counts the uses of the shared client id in \<open>globalState\<close>. The
  list of usage entries it also keeps there, and the notice it shows at every fifth use,
  are not part of the state.
\<close>

definition logClientIdUsage :: "SpotifyService \<Rightarrow> SpotifyService" where
  "logClientIdUsage s =
     (if getClientId s = ''c8bb1453d9954a9db7cceb166fdeb4d5'' then
        (let currentCount =
               (case globalState s ''sharedClientIdUsageCount'' of None \<Rightarrow> 0 | Some c \<Rightarrow> c)
         in s\<lparr>globalState := (globalState s)(''sharedClientIdUsageCount'' \<mapsto> currentCount + 1)\<rparr>)
      else s)"

text \<open>
  \<^verbatim>\<open>authenticate\<close>: the executor stores the continuations of the new promise, starts the
  callback server and, when the server listens, opens the URL and arms the timeout. When
  the start fails, the executor's own \<^verbatim>\<open>reject\<close> is called and the stored continuations
  stay. The result is the new promise with the state. The executor is run in one piece,
  on the outcome of \<^verbatim>\<open>listen\<close>.
\<close>

definition authenticate ::
  "listen_event \<Rightarrow> (nat \<Rightarrow> char) \<Rightarrow> (buffer \<Rightarrow> buffer) \<Rightarrow> SpotifyService \<Rightarrow> nat \<times> SpotifyService" where
  "authenticate ev entropy sha256 s =
     (let s0 = logClientIdUsage s;
          p = length (promises s0);
          s1 = s0\<lparr>promises := promises s0 @ [Pending],
                  pendingAuthResolve := Some p, pendingAuthReject := Some p\<rparr>;
          a = (case authCallbackServer s1 of None \<Rightarrow> newAuthCallbackServer | Some a \<Rightarrow> a);
          started = startServer ev a;
          s2 = s1\<lparr>authCallbackServer := Some (snd started)\<rparr>
      in case fst started of
           Inl error \<Rightarrow> (p, s2\<lparr>promises := settle p (Rejected error) (promises s2)\<rparr>)
         | Inr boundPort \<Rightarrow> (p, openAuthUrl entropy sha256 s2))"

text \<open>The callback of the five-minute timer armed by \<^verbatim>\<open>authenticate\<close>.\<close>

definition authTimeout :: "SpotifyService \<Rightarrow> SpotifyService" where
  "authTimeout s =
     (case pendingAuthReject s of
        None \<Rightarrow> s
      | Some p \<Rightarrow>
          stopListener
            (s\<lparr>promises := settle p (Rejected (newError ''Authentication timeout'')) (promises s),
               pendingAuthReject := None, pendingAuthResolve := None\<rparr>))"

text \<open>
  \<^verbatim>\<open>exchangeCodeForTokens\<close> in its two halves: the request is written when the function is
  called, with the verifier stored at that moment; the response handler runs when the
  answer has arrived, at time \<open>now\<close> (\<^verbatim>\<open>Date.now()\<close>, in milliseconds), and resolves or
  rejects the function's promise. Writing to the stores does not fail, and a refresh
  token that the answer lacks reads back as \<^verbatim>\<open>undefined\<close>.
\<close>

definition exchangeCodeForTokens_request :: "string \<Rightarrow> SpotifyService \<Rightarrow> SpotifyService" where
  "exchangeCodeForTokens_request code s =
     s\<lparr>tokenRequests := tokenRequests s @
         [AuthorizationCodeGrant code (redirectUri s) (getClientId s) (codeVerifier s)]\<rparr>"

definition exchangeCodeForTokens_response ::
  "http_outcome \<Rightarrow> int \<Rightarrow> SpotifyService \<Rightarrow> (js_error + unit) \<times> SpotifyService" where
  "exchangeCodeForTokens_response out now s =
     (case out of
        RequestError e \<Rightarrow> (Inl e, s)
      | Response statusCode body parsed \<Rightarrow>
          if statusCode \<noteq> 200 then
            (Inl (newError (''Token exchange failed: '' @ showNat statusCode @ '' '' @ body)), s)
          else
            (case parsed of
               Inl e \<Rightarrow> (Inl e, s)
             | Inr tokenData \<Rightarrow>
                 (Inr (),
                  s\<lparr>secrets := (secrets s)
                       (ACCESS_TOKEN_KEY \<mapsto> access_token tokenData,
                        REFRESH_TOKEN_KEY := refresh_token tokenData),
                    globalState := (globalState s)
                       (TOKEN_EXPIRY_KEY \<mapsto> now + expires_in tokenData * 1000)\<rparr>)))"

text \<open>The clean-up at the end of \<^verbatim>\<open>handleAuthCallback\<close>.\<close>

definition cleanUp :: "SpotifyService \<Rightarrow> SpotifyService" where
  "cleanUp s = stopListener (s\<lparr>pendingAuthResolve := None, pendingAuthReject := None\<rparr>)"

definition csrfError :: js_error where
  "csrfError = newError ''Invalid state parameter - potential CSRF attack''"

text \<open>
  \<^verbatim>\<open>handleAuthCallback\<close> runs up to its \<^verbatim>\<open>await\<close> in one piece: it either returns, or has
  sent the token request and waits for \<^verbatim>\<open>exchangeCodeForTokens\<close>. Other handlers of the
  extension run while it waits. Each branch also shows a message to the user, which is
  not part of the state.
\<close>

datatype callback_step = Returned SpotifyService | AwaitingExchange SpotifyService

definition handleAuthCallback_begin :: "callback_query \<Rightarrow> SpotifyService \<Rightarrow> callback_step" where
  "handleAuthCallback_begin query s =
     (if state_param query \<noteq> Some (authState s) then
        Returned (stopListener (rejectPending csrfError s))
      else if truthy (code_param query) \<and> pendingAuthResolve s \<noteq> None then
        AwaitingExchange
          (exchangeCodeForTokens_request (case code_param query of Some c \<Rightarrow> c | None \<Rightarrow> []) s)
      else if truthy (error_param query) \<and> pendingAuthReject s \<noteq> None then
        (case error_param query of
           Some error \<Rightarrow>
             Returned (cleanUp (rejectPending (newError (''Authentication failed: '' @ error)) s))
         | None \<Rightarrow> Returned (cleanUp s))
      else Returned (cleanUp s))"

text \<open>
  The rest of \<^verbatim>\<open>handleAuthCallback\<close>, after the \<^verbatim>\<open>await\<close>. Calling
  \<^verbatim>\<open>this.pendingAuthResolve()\<close> when the field is \<^verbatim>\<open>undefined\<close> throws a \<^verbatim>\<open>TypeError\<close>
  inside the \<^verbatim>\<open>try\<close> block, which the \<^verbatim>\<open>catch\<close> clause handles like a failed exchange.
\<close>

definition notAFunctionError :: js_error where
  "notAFunctionError = JsError ''TypeError'' ''this.pendingAuthResolve is not a function'' None"

definition handleAuthCallback_resume :: "http_outcome \<Rightarrow> int \<Rightarrow> SpotifyService \<Rightarrow> SpotifyService" where
  "handleAuthCallback_resume out now s =
     (case exchangeCodeForTokens_response out now s of
        (Inl authError, s1) \<Rightarrow> cleanUp (rejectPending authError s1)
      | (Inr u, s1) \<Rightarrow>
          (let s2 = s1\<lparr>authStateEvents := authStateEvents s1 @ [True]\<rparr>
           in case pendingAuthResolve s2 of
                Some p \<Rightarrow>
                  cleanUp (s2\<lparr>promises := settle p Fulfilled (promises s2)\<rparr>)
              | None \<Rightarrow> cleanUp (rejectPending notAFunctionError s2)))"

text \<open>One invocation of \<^verbatim>\<open>handleAuthCallback\<close> that nothing interrupts.\<close>

definition handleAuthCallback :: "callback_query \<Rightarrow> http_outcome \<Rightarrow> int \<Rightarrow> SpotifyService \<Rightarrow> SpotifyService" where
  "handleAuthCallback query out now s =
     (case handleAuthCallback_begin query s of
        Returned s' \<Rightarrow> s'
      | AwaitingExchange s' \<Rightarrow> handleAuthCallback_resume out now s')"

section \<open>SpotifyService: token lifecycle\<close>

text \<open>
  \<^verbatim>\<open>refreshAccessToken\<close>, with the outcome of its request and the time \<open>now\<close> at which the
  response handler reads the clock. It resolves with \<^verbatim>\<open>true\<close> only after a response with
  status 200 and a body that parses.
\<close>

definition refreshAccessToken :: "http_outcome \<Rightarrow> int \<Rightarrow> SpotifyService \<Rightarrow> bool \<times> SpotifyService" where
  "refreshAccessToken out now s =
     (case secrets s REFRESH_TOKEN_KEY of
        None \<Rightarrow> (False, s)
      | Some refreshToken \<Rightarrow>
          if refreshToken = [] then (False, s)
          else
            (let s1 = s\<lparr>tokenRequests := tokenRequests s @
                          [RefreshTokenGrant refreshToken (getClientId s)]\<rparr>
             in case out of
                  RequestError e \<Rightarrow> (False, s1)
                | Response statusCode body parsed \<Rightarrow>
                    if statusCode \<noteq> 200 then (False, s1)
                    else
                      (case parsed of
                         Inl e \<Rightarrow> (False, s1)
                       | Inr tokenData \<Rightarrow>
                           (let s2 = s1\<lparr>secrets := (secrets s1)
                                          (ACCESS_TOKEN_KEY \<mapsto> access_token tokenData)\<rparr>;
                                s3 = (if truthy (refresh_token tokenData)
                                      then s2\<lparr>secrets := (secrets s2)
                                             (REFRESH_TOKEN_KEY := refresh_token tokenData)\<rparr>
                                      else s2)
                            in (True,
                                s3\<lparr>globalState := (globalState s3)
                                     (TOKEN_EXPIRY_KEY \<mapsto> now + expires_in tokenData * 1000)\<rparr>)))))"

text \<open>
  \<^verbatim>\<open>isAuthenticated\<close>, at clock reading \<open>now\<close>; \<open>out\<close> and \<open>now'\<close> are the outcome and the
  clock reading of the refresh, should it be attempted. A stored expiry of 0 is falsy.
\<close>

definition isAuthenticated :: "int \<Rightarrow> http_outcome \<Rightarrow> int \<Rightarrow> SpotifyService \<Rightarrow> bool \<times> SpotifyService" where
  "isAuthenticated now out now' s =
     (case globalState s TOKEN_EXPIRY_KEY of
        None \<Rightarrow> (False, s)
      | Some tokenExpiry \<Rightarrow>
          if \<not> truthy (secrets s ACCESS_TOKEN_KEY) \<or> tokenExpiry = 0 then (False, s)
          else if tokenExpiry - 300000 < now then refreshAccessToken out now' s
          else (True, s))"

definition dispose :: "SpotifyService \<Rightarrow> SpotifyService" where
  "dispose s = stopListener s"

section \<open>The service among its events\<close>

text \<open>
  The extension host runs one handler at a time, and a handler that awaits gives way to
  the others. The events that reach the service: a call of \<^verbatim>\<open>authenticate\<close>, the timer of
  an earlier call, a URI delivered to \<^verbatim>\<open>handleAuthCallback\<close>, the answer to a token
  request that an invocation of \<^verbatim>\<open>handleAuthCallback\<close> waits for, a call of
  \<^verbatim>\<open>isAuthenticated\<close>, and \<^verbatim>\<open>dispose\<close>. \<open>waiting\<close> counts the invocations of
  \<^verbatim>\<open>handleAuthCallback\<close> that wait for their exchange; what follows the \<^verbatim>\<open>await\<close> reads
  the fields of the service only, so the waiting invocations are all alike.
\<close>

datatype event =
    Authenticate listen_event "nat \<Rightarrow> char"
  | TimeoutFires
  | UriCallback callback_query
  | ExchangeAnswer http_outcome int
  | CheckAuthenticated int http_outcome int
  | Dispose

record host =
  service :: SpotifyService
  waiting :: nat

definition step :: "(buffer \<Rightarrow> buffer) \<Rightarrow> event \<Rightarrow> host \<Rightarrow> host" where
  "step sha256 ev h =
     (case ev of
        Authenticate l entropy \<Rightarrow> h\<lparr>service := snd (authenticate l entropy sha256 (service h))\<rparr>
      | TimeoutFires \<Rightarrow> h\<lparr>service := authTimeout (service h)\<rparr>
      | UriCallback query \<Rightarrow>
          (case handleAuthCallback_begin query (service h) of
             Returned s' \<Rightarrow> h\<lparr>service := s'\<rparr>
           | AwaitingExchange s' \<Rightarrow> h\<lparr>service := s', waiting := Suc (waiting h)\<rparr>)
      | ExchangeAnswer out now \<Rightarrow>
          (case waiting h of
             0 \<Rightarrow> h
           | Suc n \<Rightarrow> h\<lparr>service := handleAuthCallback_resume out now (service h), waiting := n\<rparr>)
      | CheckAuthenticated now out now' \<Rightarrow>
          h\<lparr>service := snd (isAuthenticated now out now' (service h))\<rparr>
      | Dispose \<Rightarrow> h\<lparr>service := dispose (service h)\<rparr>)"

fun run :: "(buffer \<Rightarrow> buffer) \<Rightarrow> event list \<Rightarrow> host \<Rightarrow> host" where
  "run sha256 [] h = h"
| "run sha256 (ev # evs) h = run sha256 evs (step sha256 ev h)"

section \<open>A session that awaits its redirect\<close>


definition constantDigest :: "buffer \<Rightarrow> buffer" where
  "constantDigest m = replicate 32 (CHR 0x00)"

definition awaitingRedirect :: SpotifyService where
  "awaitingRedirect =
     \<lparr>codeVerifier = ''AAAAAAAAAAAAAAAAAAAAAAAAAAAAAAAAAAAAAAAAAAA'',
      authState = ''AAAAAAAAAAAAAAAAAAAAAAAAAAAAAAAAAAAAAAAAAAA'',
      pendingAuthResolve = Some 0, pendingAuthReject = Some 0,
      authCallbackServer = Some \<lparr>server = Some 0, httpServers = [True]\<rparr>,
      redirectUri = ''http://127.0.0.1:3000/callback'',
      settingsClientId = [], envClientId = None, secrets = Map.empty,
      globalState = [''sharedClientIdUsageCount'' \<mapsto> 1],
      promises = [Pending], tokenRequests = [], authStateEvents = [],
      openedUrls =
        [\<lparr>url_client_id = ''c8bb1453d9954a9db7cceb166fdeb4d5'',
          url_redirect_uri = ''http://127.0.0.1:3000/callback'',
          url_scope = ''user-read-playback-state user-modify-playback-state playlist-read-private playlist-read-collaborative'',
          url_code_challenge = ''AAAAAAAAAAAAAAAAAAAAAAAAAAAAAAAAAAAAAAAAAAA'',
          url_state = ''AAAAAAAAAAAAAAAAAAAAAAAAAAAAAAAAAAAAAAAAAAA''\<rparr>]\<rparr>"

definition matchingState :: string where
  "matchingState = ''AAAAAAAAAAAAAAAAAAAAAAAAAAAAAAAAAAAAAAAAAAA''"

text \<open>
  The same session while \<^verbatim>\<open>handleAuthCallback\<close> waits for the exchange of the code
  \<^verbatim>\<open>abc123\<close>, and the answers of the token endpoint used below.
\<close>

definition resolving :: SpotifyService where
  "resolving = exchangeCodeForTokens_request ''abc123'' awaitingRedirect"

definition tokenAnswer :: http_outcome where
  \<open>tokenAnswer = Response 200 ''{"access_token":"AT","refresh_token":"RT","expires_in":3600}''
     (Inr \<lparr>access_token = ''AT'', refresh_token = Some ''RT'', expires_in = 3600\<rparr>)\<close>

definition networkFailure :: http_outcome where
  "networkFailure =
     RequestError (JsError ''Error'' ''getaddrinfo ENOTFOUND accounts.spotify.com'' (Some ''ENOTFOUND''))"

definition codeCallback :: callback_query where
  "codeCallback = \<lparr>code_param = Some ''abc123'', error_param = None, state_param = Some matchingState\<rparr>"


definition forgedCallback :: callback_query where
  "forgedCallback = \<lparr>code_param = Some ''abc123'', error_param = None, state_param = Some ''forged''\<rparr>"

definition emptyCallback :: callback_query where
  "emptyCallback = \<lparr>code_param = None, error_param = None, state_param = Some matchingState\<rparr>"

text \<open>
  A promise that neither stored continuation refers to. The promises are created by
  \<^verbatim>\<open>authenticate\<close> alone, which stores the continuations of the one it has just made.
\<close>

definition unreferenced :: "nat \<Rightarrow> SpotifyService \<Rightarrow> bool" where
  "unreferenced p s =
     (p < length (promises s) \<and> pendingAuthResolve s \<noteq> Some p \<and> pendingAuthReject s \<noteq> Some p)"

definition codeAlreadyUsed :: http_outcome where
  "codeAlreadyUsed = Response 400 ''invalid_grant''
     (Inl (JsError ''SyntaxError'' ''Unexpected token i in JSON at position 0'' None))"

definition codeGrant :: token_request where
  "codeGrant = AuthorizationCodeGrant ''abc123'' ''http://127.0.0.1:3000/callback''
     ''c8bb1453d9954a9db7cceb166fdeb4d5'' ''AAAAAAAAAAAAAAAAAAAAAAAAAAAAAAAAAAAAAAAAAAA''"

text \<open>
  A service with stored tokens that expire at \<open>expiry\<close>, and a refresh answer without a
  new refresh token.
\<close>

definition withTokens :: "int \<Rightarrow> SpotifyService" where
  "withTokens expiry =
     newSpotifyService [] None
       [ACCESS_TOKEN_KEY \<mapsto> ''AT'', REFRESH_TOKEN_KEY \<mapsto> ''RT'']
       [TOKEN_EXPIRY_KEY \<mapsto> expiry]"

definition refreshAnswer :: http_outcome where
  \<open>refreshAnswer = Response 200 ''{"access_token":"AT2","expires_in":3600}''
     (Inr \<lparr>access_token = ''AT2'', refresh_token = None, expires_in = 3600\<rparr>)\<close>



section \<open>Properties of the redirect listener\<close>

lemma showNat_port: "showNat port = ''3000''"
  unfolding port_def by code_simp

text \<open>
  C9. Stopping the redirect listener is idempotent: a second \<^verbatim>\<open>stopServer\<close> finds
  \<open>server\<close> already \<^verbatim>\<open>null\<close> and changes nothing, so two consecutive stops leave the
  state of one.
\<close>

theorem stopServer_idempotent: "stopServer (stopServer a) = stopServer a"
  by (cases "server a") (simp_all add: stopServer_def)

text \<open>
  C7. When \<^verbatim>\<open>listen\<close> fails with code \<^verbatim>\<open>EADDRINUSE\<close>, \<^verbatim>\<open>startServer\<close> rejects with
  its own port-in-use error; every other failure is passed on as it came. The port-in-use
  error carries no error code, so no system error with another code is taken for it: the
  result is the port-in-use error only for \<^verbatim>\<open>EADDRINUSE\<close> (or for an error object that
  already is that very value).
\<close>

theorem startServer_port_in_use:
  "(err_code e = Some ''EADDRINUSE'' \<longrightarrow> fst (startServer (ListenError e) a) = Inl portInUseError) \<and>
   (err_code e \<noteq> Some ''EADDRINUSE'' \<longrightarrow> fst (startServer (ListenError e) a) = Inl e) \<and>
   (fst (startServer (ListenError e) a) = Inl portInUseError
      \<longleftrightarrow> err_code e = Some ''EADDRINUSE'' \<or> e = portInUseError) \<and>
   (\<forall>c. err_code e = Some c \<and> c \<noteq> ''EADDRINUSE''
      \<longrightarrow> fst (startServer (ListenError e) a) \<noteq> Inl portInUseError) \<and>
   err_message portInUseError =
     ''Port 3000 is already in use. Please ensure no other application is using this port and try again.''"
  by (auto simp: startServer_def Let_def portInUseError_def newError_def showNat_port)

theorem startServer_port_in_use_witness:
  "fst (startServer (ListenError (JsError ''Error'' ''listen EADDRINUSE: address already in use 127.0.0.1:3000'' (Some ''EADDRINUSE''))) newAuthCallbackServer)
     = Inl portInUseError \<and>
   fst (startServer (ListenError (JsError ''Error'' ''listen EACCES: permission denied 127.0.0.1:3000'' (Some ''EACCES''))) newAuthCallbackServer)
     = Inl (JsError ''Error'' ''listen EACCES: permission denied 127.0.0.1:3000'' (Some ''EACCES'')) \<and>
   fst (startServer (ListenError (JsError ''Error'' ''listen EACCES: permission denied 127.0.0.1:3000'' (Some ''EACCES''))) newAuthCallbackServer)
     \<noteq> Inl portInUseError"
  using startServer_port_in_use
          [of "JsError ''Error'' ''listen EADDRINUSE: address already in use 127.0.0.1:3000'' (Some ''EADDRINUSE'')"
              newAuthCallbackServer]
        startServer_port_in_use
          [of "JsError ''Error'' ''listen EACCES: permission denied 127.0.0.1:3000'' (Some ''EACCES'')"
              newAuthCallbackServer]
  by (simp add: portInUseError_def newError_def)

text \<open>
  C4. The error page embeds the \<^verbatim>\<open>error\<close> parameter as it arrived: for the value
  \<^verbatim>\<open><script>alert(1)</script>\<close> the page is the template with the raw markup in it, not
  with the escaped text that \<^verbatim>\<open>htmlEscape\<close> produces.
\<close>

theorem getErrorPageHtml_embeds_raw_error:
  \<open>handleCallback \<lparr>code_param = None, error_param = Some ''<script>alert(1)</script>'', state_param = None\<rparr>
     = ErrorPage (getErrorPageHtml ''<script>alert(1)</script>'') \<and>
   getErrorPageHtml ''<script>alert(1)</script>''
     = errorPageHead @ ''<script>alert(1)</script>'' @ errorPageTail \<and>
   sublist ''<script>alert(1)</script>'' (getErrorPageHtml ''<script>alert(1)</script>'') \<and>
   htmlEscape ''<script>alert(1)</script>'' = ''&lt;script&gt;alert(1)&lt;/script&gt;'' \<and>
   getErrorPageHtml ''<script>alert(1)</script>''
     \<noteq> errorPageHead @ htmlEscape ''<script>alert(1)</script>'' @ errorPageTail\<close>
proof -
  have esc: \<open>htmlEscape ''<script>alert(1)</script>'' = ''&lt;script&gt;alert(1)&lt;/script&gt;''\<close>
    by (simp add: htmlEscape_def htmlEscapeChar_def)
  have sub: \<open>sublist ''<script>alert(1)</script>'' (getErrorPageHtml ''<script>alert(1)</script>'')\<close>
    unfolding getErrorPageHtml_def by (rule sublist_appendI)
  have page: \<open>handleCallback \<lparr>code_param = None, error_param = Some ''<script>alert(1)</script>'', state_param = None\<rparr>
     = ErrorPage (getErrorPageHtml ''<script>alert(1)</script>'')\<close>
    by (simp add: handleCallback_def errorOrBadRequest_def)
  have neq: \<open>getErrorPageHtml ''<script>alert(1)</script>''
     \<noteq> errorPageHead @ htmlEscape ''<script>alert(1)</script>'' @ errorPageTail\<close>
    unfolding esc getErrorPageHtml_def by simp
  show ?thesis
    using esc sub page neq by (simp add: getErrorPageHtml_def)
qed

section \<open>Properties of the PKCE generator\<close>

lemma base64url_length: "length (base64url bs) = (4 * length bs + 2) div 3"
  by (induction bs rule: base64url.induct) simp_all

lemma base64urlChar_in_alphabet: "base64urlChar i \<in> set base64urlAlphabet"
proof -
  have "i mod 64 < length base64urlAlphabet"
    by (simp add: base64urlAlphabet_def)
  then show ?thesis
    unfolding base64urlChar_def by (rule nth_mem)
qed

lemma base64url_alphabet: "set (base64url bs) \<subseteq> set base64urlAlphabet"
  by (induction bs rule: base64url.induct) (simp_all add: base64urlChar_in_alphabet)

lemma no_padding_in_alphabet: "CHR ''='' \<notin> set base64urlAlphabet"
  by (simp add: base64urlAlphabet_def)

text \<open>
  C6. The verifier is the base64url encoding, without padding, of 32 random bytes: 43
  characters of the URL-safe alphabet. The challenge of a verifier is the base64url
  encoding, without padding, of the SHA-256 digest of the verifier; the digest has 32
  bytes, so the challenge has 43 characters of the same alphabet, none of them \<^verbatim>\<open>=\<close>,
  and it depends on the verifier alone.
\<close>

theorem pkce_verifier_and_challenge:
  assumes "length (sha v) = 32"
  shows "generateCodeVerifier entropy = base64url (map entropy [0..<32]) \<and>
         length (generateCodeVerifier entropy) = 43 \<and>
         set (generateCodeVerifier entropy) \<subseteq> set base64urlAlphabet \<and>
         CHR ''='' \<notin> set (generateCodeVerifier entropy) \<and>
         generateCodeChallenge sha v = base64url (sha v) \<and>
         length (generateCodeChallenge sha v) = 43 \<and>
         set (generateCodeChallenge sha v) \<subseteq> set base64urlAlphabet \<and>
         CHR ''='' \<notin> set (generateCodeChallenge sha v)"
proof -
  have ver: "length (generateCodeVerifier entropy) = 43"
    by (simp add: generateCodeVerifier_def randomBytes_def base64url_length)
  have cha: "length (generateCodeChallenge sha v) = 43"
    by (simp add: generateCodeChallenge_def base64url_length assms)
  have pad: "CHR ''='' \<notin> set (base64url bs)" for bs
    using base64url_alphabet [of bs] no_padding_in_alphabet by blast
  show ?thesis
    using ver cha pad base64url_alphabet
    by (simp add: generateCodeVerifier_def generateCodeChallenge_def randomBytes_def)
qed

text \<open>
  The instance: a digest of 32 bytes \<^verbatim>\<open>0xFB\<close>, \<^verbatim>\<open>0xFF\<close>, ... stands for the hash; the
  challenge is spelled out, with the characters \<^verbatim>\<open>-\<close> and \<^verbatim>\<open>_\<close> of the URL-safe
  alphabet in it.
\<close>

theorem pkce_verifier_and_challenge_witness:
  "length (replicate 32 (CHR 0xFB)) = 32 \<and>
   generateCodeChallenge (\<lambda>m. replicate 32 (CHR 0xFB)) ''dBjftJeZ4CVP-mB92K27uhbUJU1p1r_wW1gFWFOEjXk''
     = ''-_v7-_v7-_v7-_v7-_v7-_v7-_v7-_v7-_v7-_v7-_s'' \<and>
   length (generateCodeChallenge (\<lambda>m. replicate 32 (CHR 0xFB)) ''dBjftJeZ4CVP-mB92K27uhbUJU1p1r_wW1gFWFOEjXk'') = 43 \<and>
   length (generateCodeVerifier (\<lambda>i. CHR 0x00)) = 43"
proof -
  have digest: "length (replicate 32 (CHR 0xFB)) = 32"
    by simp
  have enc: "base64url (replicate 32 (CHR 0xFB)) = ''-_v7-_v7-_v7-_v7-_v7-_v7-_v7-_v7-_v7-_v7-_s''"
    by code_simp
  have lens:
    "length (generateCodeChallenge (\<lambda>m. replicate 32 (CHR 0xFB)) ''dBjftJeZ4CVP-mB92K27uhbUJU1p1r_wW1gFWFOEjXk'') = 43 \<and>
     length (generateCodeVerifier (\<lambda>i. CHR 0x00)) = 43"
    using pkce_verifier_and_challenge
            [where sha = "\<lambda>m. replicate 32 (CHR 0xFB)"
               and v = "''dBjftJeZ4CVP-mB92K27uhbUJU1p1r_wW1gFWFOEjXk''"
               and entropy = "\<lambda>i. CHR 0x00", OF digest]
    by blast
  show ?thesis
    using lens digest enc unfolding generateCodeChallenge_def by blast
qed

section \<open>Properties of the authentication coordinator\<close>

subsection \<open>Promises and the listener\<close>

lemma settle_length [simp]: "length (settle p v ps) = length ps"
  by (simp add: settle_def)

lemma settle_other: "q \<noteq> p \<Longrightarrow> settle q v ps ! p = ps ! p"
  by (simp add: settle_def)

lemma settle_pending: "p < length ps \<Longrightarrow> ps ! p = Pending \<Longrightarrow> settle p v ps ! p = v"
  by (simp add: settle_def)

lemma settle_settled: "ps ! p \<noteq> Pending \<Longrightarrow> settle q v ps ! p = ps ! p"
  by (cases "q = p") (simp_all add: settle_def)

lemma logClientIdUsage_frame [simp]:
  "promises (logClientIdUsage s) = promises s"
  "pendingAuthResolve (logClientIdUsage s) = pendingAuthResolve s"
  "pendingAuthReject (logClientIdUsage s) = pendingAuthReject s"
  "authCallbackServer (logClientIdUsage s) = authCallbackServer s"
  by (simp_all add: logClientIdUsage_def Let_def)

lemma authCallbackServer_rejectPending [simp]:
  "authCallbackServer (rejectPending e s) = authCallbackServer s"
  by (simp add: rejectPending_def split: option.splits)


lemma authCallbackServer_cleanUp [simp]:
  "authCallbackServer (cleanUp s) = map_option stopServer (authCallbackServer s)"
  by (simp add: cleanUp_def stopListener_def)

lemma authCallbackServer_stopListener [simp]:
  "authCallbackServer (stopListener s) = map_option stopServer (authCallbackServer s)"
  by (simp add: stopListener_def)

lemma stopServer_closes:
  assumes "case server a of None \<Rightarrow> True \<notin> set (httpServers a)
           | Some h \<Rightarrow> True \<notin> set ((httpServers a)[h := False])"
  shows "True \<notin> set (httpServers (stopServer a))"
  using assms by (cases "server a") (simp_all add: stopServer_def)

lemma stopped_not_running:
  assumes "onlyCurrentListener s"
      and "authCallbackServer s' = map_option stopServer (authCallbackServer s)"
  shows "\<not> listenerRunning s'"
proof (cases "authCallbackServer s")
  case None
  with assms(2) show ?thesis by (simp add: listenerRunning_def)
next
  case (Some a)
  with assms(1) have "True \<notin> set (httpServers (stopServer a))"
    by (intro stopServer_closes) (simp add: onlyCurrentListener_def)
  with Some assms(2) show ?thesis by (simp add: listenerRunning_def)
qed



lemma begin_returned_stops:
  "handleAuthCallback_begin query s = Returned s' \<Longrightarrow>
   authCallbackServer s' = map_option stopServer (authCallbackServer s)"
  by (auto simp: handleAuthCallback_begin_def split: if_splits option.splits)


subsection \<open>Reaching a pending session\<close>





text \<open>
  A call of \<^verbatim>\<open>authenticate\<close> while no listener runs keeps the current server object the
  only one that may listen; so does every other operation of the service.
\<close>

lemma startServer_onlyCurrent:
  assumes "True \<notin> set (httpServers a)"
  shows "case server (snd (startServer ev a)) of
           None \<Rightarrow> True \<notin> set (httpServers (snd (startServer ev a)))
         | Some h \<Rightarrow> True \<notin> set ((httpServers (snd (startServer ev a)))[h := False])"
  using assms
  by (cases ev) (auto simp: startServer_def Let_def list_update_append split: if_splits)

lemma authenticate_onlyCurrentListener:
  assumes "\<not> listenerRunning s"
  shows "onlyCurrentListener (snd (authenticate l entropy sha s))"
proof -
  define a where
    "a = (case authCallbackServer s of None \<Rightarrow> newAuthCallbackServer | Some a \<Rightarrow> a)"
  have "True \<notin> set (httpServers a)"
    using assms
    by (cases "authCallbackServer s") (simp_all add: a_def listenerRunning_def newAuthCallbackServer_def)
  from startServer_onlyCurrent [OF this, of l]
  have "onlyCurrentListener (s'\<lparr>authCallbackServer := Some (snd (startServer l a))\<rparr>)" for s'
    by (simp add: onlyCurrentListener_def)
  then show ?thesis
    by (cases "fst (startServer l a)")
       (simp_all add: authenticate_def Let_def a_def openAuthUrl_def onlyCurrentListener_def)
qed

subsection \<open>State mismatch\<close>

lemma awaitingRedirect_onlyCurrentListener: "onlyCurrentListener awaitingRedirect"
  by (simp add: onlyCurrentListener_def awaitingRedirect_def)

text \<open>
  C1. A callback whose state parameter is not the stored state rejects the pending promise
  with the CSRF error and returns before anything is sent to the token endpoint (it never
  reaches the exchange, whatever the network would answer). It stops the listener: the
  callback server afterwards is the one before with \<^verbatim>\<open>stopServer\<close> applied, its server
  object closed and the reference cleared, and no listener is left running.
\<close>

theorem csrf_mismatch_rejected:
  assumes "state_param query \<noteq> Some (authState s)"
      and "pendingAuthReject s = Some p"
      and "p < length (promises s)"
      and "promises s ! p = Pending"
      and "onlyCurrentListener s"
  shows "\<exists>s'. handleAuthCallback_begin query s = Returned s' \<and>
              handleAuthCallback query out now s = s' \<and>
              promises s' ! p = Rejected csrfError \<and>
              err_message csrfError = ''Invalid state parameter - potential CSRF attack'' \<and>
              tokenRequests s' = tokenRequests s \<and>
              authCallbackServer s' = map_option stopServer (authCallbackServer s) \<and>
              \<not> listenerRunning s'"
proof -
  define s' where "s' = stopListener (rejectPending csrfError s)"
  have ret: "handleAuthCallback_begin query s = Returned s'"
    using assms(1) by (simp add: handleAuthCallback_begin_def s'_def)
  have whole: "handleAuthCallback query out now s = s'"
    by (simp add: handleAuthCallback_def ret)
  have rej: "promises s' ! p = Rejected csrfError"
    using assms(2-4) by (simp add: s'_def stopListener_def rejectPending_def settle_pending)
  have req: "tokenRequests s' = tokenRequests s"
    by (simp add: s'_def stopListener_def rejectPending_def split: option.splits)
  have closed: "authCallbackServer s' = map_option stopServer (authCallbackServer s)"
    using ret by (rule begin_returned_stops)
  have stopped: "\<not> listenerRunning s'"
    using assms(5) closed by (rule stopped_not_running)
  show ?thesis
    using ret whole rej req closed stopped by (simp add: csrfError_def newError_def)
qed

theorem csrf_mismatch_rejected_witness:
  "\<exists>s'. handleAuthCallback_begin forgedCallback awaitingRedirect = Returned s' \<and>
         promises s' ! 0 = Rejected csrfError \<and>
         tokenRequests s' = [] \<and>
         authCallbackServer awaitingRedirect = Some \<lparr>server = Some 0, httpServers = [True]\<rparr> \<and>
         authCallbackServer s' = Some \<lparr>server = None, httpServers = [False]\<rparr> \<and>
         \<not> listenerRunning s'"
proof -
  have "state_param forgedCallback \<noteq> Some (authState awaitingRedirect)"
    by (simp add: awaitingRedirect_def forgedCallback_def)
  moreover have "pendingAuthReject awaitingRedirect = Some 0"
    and "0 < length (promises awaitingRedirect)"
    and "promises awaitingRedirect ! 0 = Pending"
    and "tokenRequests awaitingRedirect = []"
    and "authCallbackServer awaitingRedirect = Some \<lparr>server = Some 0, httpServers = [True]\<rparr>"
    and "map_option stopServer (authCallbackServer awaitingRedirect)
           = Some \<lparr>server = None, httpServers = [False]\<rparr>"
    by (simp_all add: awaitingRedirect_def stopServer_def)
  ultimately show ?thesis
    using csrf_mismatch_rejected [of forgedCallback awaitingRedirect 0]
          awaitingRedirect_onlyCurrentListener
    by fastforce
qed

subsection \<open>Stopping the listener\<close>



lemma resolving_onlyCurrentListener: "onlyCurrentListener resolving"
  by (simp add: onlyCurrentListener_def resolving_def exchangeCodeForTokens_request_def
      awaitingRedirect_def)


subsection \<open>A promise without continuations stays as it is\<close>

lemma unreferenced_rejectPending:
  assumes "unreferenced p s"
  shows "unreferenced p (rejectPending e s) \<and> promises (rejectPending e s) ! p = promises s ! p"
  using assms
  by (cases "pendingAuthReject s") (auto simp: unreferenced_def rejectPending_def settle_other)

lemma unreferenced_frame:
  assumes "unreferenced p s"
      and "promises s' = promises s"
      and "pendingAuthResolve s' = pendingAuthResolve s \<or> pendingAuthResolve s' = None"
      and "pendingAuthReject s' = pendingAuthReject s \<or> pendingAuthReject s' = None"
  shows "unreferenced p s' \<and> promises s' ! p = promises s ! p"
  using assms by (auto simp: unreferenced_def)

lemma unreferenced_stopListener:
  "unreferenced p s \<Longrightarrow>
   unreferenced p (stopListener s) \<and> promises (stopListener s) ! p = promises s ! p"
  by (rule unreferenced_frame) (simp_all add: stopListener_def)

lemma unreferenced_cleanUp:
  "unreferenced p s \<Longrightarrow> unreferenced p (cleanUp s) \<and> promises (cleanUp s) ! p = promises s ! p"
  by (rule unreferenced_frame) (simp_all add: cleanUp_def stopListener_def)

lemma unreferenced_authTimeout:
  assumes "unreferenced p s"
  shows "unreferenced p (authTimeout s) \<and> promises (authTimeout s) ! p = promises s ! p"
  using assms
  by (cases "pendingAuthReject s")
     (auto simp: unreferenced_def authTimeout_def stopListener_def settle_other)

lemma unreferenced_begin:
  assumes "unreferenced p s"
      and "handleAuthCallback_begin query s = Returned s' \<or>
           handleAuthCallback_begin query s = AwaitingExchange s'"
  shows "unreferenced p s' \<and> promises s' ! p = promises s ! p"
proof -
  note rp = unreferenced_rejectPending [OF assms(1)]
  have mismatch: "unreferenced p s1 \<and> promises s1 ! p = promises s ! p"
    if "s1 = stopListener (rejectPending e s)" for s1 e
    using rp [of e] unreferenced_stopListener [of p "rejectPending e s"] that
    by simp
  have provider: "unreferenced p s1 \<and> promises s1 ! p = promises s ! p"
    if "s1 = cleanUp (rejectPending e s)" for s1 e
    using rp [of e] unreferenced_cleanUp [of p "rejectPending e s"] that
    by simp
  have request: "unreferenced p s1 \<and> promises s1 ! p = promises s ! p"
    if "s1 = exchangeCodeForTokens_request c s" for s1 c
    using assms(1) that by (simp add: unreferenced_def exchangeCodeForTokens_request_def)
  show ?thesis
    using assms(2) mismatch provider request unreferenced_cleanUp [OF assms(1)]
    by (auto simp: handleAuthCallback_begin_def split: if_splits option.splits)
qed

lemma unreferenced_exchange_response:
  assumes "unreferenced p s"
  shows "unreferenced p (snd (exchangeCodeForTokens_response out now s)) \<and>
         promises (snd (exchangeCodeForTokens_response out now s)) ! p = promises s ! p"
  using assms
  by (auto simp: unreferenced_def exchangeCodeForTokens_response_def
      split: http_outcome.splits sum.splits)

lemma unreferenced_resume:
  assumes "unreferenced p s"
  shows "unreferenced p (handleAuthCallback_resume out now s) \<and>
         promises (handleAuthCallback_resume out now s) ! p = promises s ! p"
proof (cases "exchangeCodeForTokens_response out now s")
  case (Pair r s1)
  with unreferenced_exchange_response [OF assms, of out now]
  have s1: "unreferenced p s1" and eq1: "promises s1 ! p = promises s ! p"
    by simp_all
  show ?thesis
  proof (cases r)
    case (Inl e)
    with Pair have "handleAuthCallback_resume out now s = cleanUp (rejectPending e s1)"
      by (simp add: handleAuthCallback_resume_def)
    then show ?thesis
      using unreferenced_rejectPending [OF s1, of e]
            unreferenced_cleanUp [of p "rejectPending e s1"] eq1
      by simp
  next
    case (Inr u)
    define s2 where "s2 = s1\<lparr>authStateEvents := authStateEvents s1 @ [True]\<rparr>"
    have s2: "unreferenced p s2" and eq2: "promises s2 ! p = promises s ! p"
      using s1 eq1 by (simp_all add: s2_def unreferenced_def)
    show ?thesis
    proof (cases "pendingAuthResolve s2")
      case None
      with Pair Inr
      have "handleAuthCallback_resume out now s = cleanUp (rejectPending notAFunctionError s2)"
        by (simp add: handleAuthCallback_resume_def s2_def)
      then show ?thesis
        using unreferenced_rejectPending [OF s2, of notAFunctionError]
              unreferenced_cleanUp [of p "rejectPending notAFunctionError s2"] eq2
        by simp
    next
      case (Some q)
      define s3 where "s3 = s2\<lparr>promises := settle q Fulfilled (promises s2)\<rparr>"
      from Some s2 have "q \<noteq> p"
        by (auto simp: unreferenced_def)
      then have s3: "unreferenced p s3" and eq3: "promises s3 ! p = promises s ! p"
        using s2 eq2 by (simp_all add: s3_def unreferenced_def settle_other)
      from Pair Inr Some
      have "handleAuthCallback_resume out now s = cleanUp s3"
        by (simp add: handleAuthCallback_resume_def s2_def s3_def)
      then show ?thesis
        using unreferenced_cleanUp [OF s3] eq3 by simp
    qed
  qed
qed

lemma unreferenced_refreshAccessToken:
  assumes "unreferenced p s"
  shows "unreferenced p (snd (refreshAccessToken out now s)) \<and>
         promises (snd (refreshAccessToken out now s)) ! p = promises s ! p"
  using assms
  by (auto simp: unreferenced_def refreshAccessToken_def Let_def
      split: option.splits http_outcome.splits sum.splits)

lemma unreferenced_isAuthenticated:
  assumes "unreferenced p s"
  shows "unreferenced p (snd (isAuthenticated now out now' s)) \<and>
         promises (snd (isAuthenticated now out now' s)) ! p = promises s ! p"
  using unreferenced_refreshAccessToken [OF assms, of out now'] assms
  by (auto simp: isAuthenticated_def split: option.splits)

lemma unreferenced_authenticate:
  assumes "unreferenced p s"
  shows "unreferenced p (snd (authenticate l entropy sha s)) \<and>
         promises (snd (authenticate l entropy sha s)) ! p = promises s ! p"
proof -
  from assms have "p < length (promises s)"
    by (simp add: unreferenced_def)
  then have fresh: "length (promises s) \<noteq> p"
    and keep: "(promises s @ [Pending]) ! p = promises s ! p"
    by (simp_all add: nth_append)
  with assms show ?thesis
    by (auto simp: unreferenced_def authenticate_def Let_def openAuthUrl_def settle_other
        split: sum.splits)
qed

lemma unreferenced_step:
  assumes "unreferenced p (service h)"
  shows "unreferenced p (service (step sha ev h)) \<and>
         promises (service (step sha ev h)) ! p = promises (service h) ! p"
proof (cases ev)
  case (Authenticate l entropy)
  then show ?thesis
    using unreferenced_authenticate [OF assms, of l entropy sha] by (simp add: step_def)
next
  case TimeoutFires
  then show ?thesis
    using unreferenced_authTimeout [OF assms] by (simp add: step_def)
next
  case (UriCallback query)
  show ?thesis
  proof (cases "handleAuthCallback_begin query (service h)")
    case (Returned s')
    with UriCallback show ?thesis
      using unreferenced_begin [OF assms, of query s'] by (simp add: step_def)
  next
    case (AwaitingExchange s')
    with UriCallback show ?thesis
      using unreferenced_begin [OF assms, of query s'] by (simp add: step_def)
  qed
next
  case (ExchangeAnswer out now)
  then show ?thesis
    using unreferenced_resume [OF assms, of out now] assms
    by (cases "waiting h") (simp_all add: step_def)
next
  case (CheckAuthenticated now out now')
  then show ?thesis
    using unreferenced_isAuthenticated [OF assms, of now out now'] by (simp add: step_def)
next
  case Dispose
  then show ?thesis
    using unreferenced_stopListener [OF assms] by (simp add: step_def dispose_def)
qed

lemma unreferenced_run:
  "unreferenced p (service h) \<Longrightarrow>
   promises (service (run sha evs h)) ! p = promises (service h) ! p"
proof (induction evs arbitrary: h)
  case Nil
  show ?case by simp
next
  case (Cons ev evs)
  from unreferenced_step [OF Cons.prems, of sha ev]
  have "unreferenced p (service (step sha ev h))"
    and "promises (service (step sha ev h)) ! p = promises (service h) ! p"
    by simp_all
  with Cons.IH [of "step sha ev h"] show ?case by simp
qed

text \<open>
  C10. A callback with the stored state and neither a code nor an error takes neither
  branch of \<^verbatim>\<open>handleAuthCallback\<close>: the clean-up clears both continuations and stops the
  listener (the callback server afterwards is the one before with \<^verbatim>\<open>stopServer\<close>
  applied, and no listener is left running), and the promise of \<^verbatim>\<open>authenticate\<close> is left
  pending. Nothing refers to the promise from then on, so it stays pending: when the
  armed timer fires, and after any sequence of later events of the service.
\<close>

theorem callback_without_code_or_error_leaves_promise_pending:
  assumes "pendingAuthResolve s = Some p"
      and "pendingAuthReject s = Some p"
      and "p < length (promises s)"
      and "promises s ! p = Pending"
      and "state_param query = Some (authState s)"
      and "code_param query = None"
      and "error_param query = None"
      and "onlyCurrentListener s"
  shows "\<exists>s'. handleAuthCallback_begin query s = Returned s' \<and>
              pendingAuthResolve s' = None \<and>
              pendingAuthReject s' = None \<and>
              authCallbackServer s' = map_option stopServer (authCallbackServer s) \<and>
              \<not> listenerRunning s' \<and>
              promises s' = promises s \<and>
              promises s' ! p = Pending \<and>
              authTimeout s' = s' \<and>
              (\<forall>sha evs n. promises (service (run sha evs \<lparr>service = s', waiting = n\<rparr>)) ! p
                             = Pending)"
proof -
  have ret: "handleAuthCallback_begin query s = Returned (cleanUp s)"
    using assms(5-7) by (simp add: handleAuthCallback_begin_def truthy_def)
  have cleared: "pendingAuthResolve (cleanUp s) = None" "pendingAuthReject (cleanUp s) = None"
    and same: "promises (cleanUp s) = promises s"
    by (simp_all add: cleanUp_def stopListener_def)
  have closed: "authCallbackServer (cleanUp s) = map_option stopServer (authCallbackServer s)"
    by (rule authCallbackServer_cleanUp)
  have stopped: "\<not> listenerRunning (cleanUp s)"
    using assms(8) closed by (rule stopped_not_running)
  have timer: "authTimeout (cleanUp s) = cleanUp s"
    by (simp add: authTimeout_def cleared)
  have unref: "unreferenced p (cleanUp s)"
    using assms(3) by (simp add: unreferenced_def cleared same)
  have later: "promises (service (run sha evs \<lparr>service = cleanUp s, waiting = n\<rparr>)) ! p = Pending"
    for sha evs n
    using unreferenced_run [of p "\<lparr>service = cleanUp s, waiting = n\<rparr>" sha evs] unref same assms(4)
    by simp
  show ?thesis
    using ret cleared same closed stopped timer later assms(4) by simp
qed

theorem callback_without_code_or_error_leaves_promise_pending_witness:
  "\<exists>s'. handleAuthCallback_begin emptyCallback awaitingRedirect = Returned s' \<and>
         pendingAuthResolve s' = None \<and>
         pendingAuthReject s' = None \<and>
         authCallbackServer s' = Some \<lparr>server = None, httpServers = [False]\<rparr> \<and>
         \<not> listenerRunning s' \<and>
         promises s' = [Pending] \<and>
         authTimeout s' = s' \<and>
         (\<forall>sha evs n. promises (service (run sha evs \<lparr>service = s', waiting = n\<rparr>)) ! 0 = Pending)"
proof -
  have "pendingAuthResolve awaitingRedirect = Some 0"
    and "pendingAuthReject awaitingRedirect = Some 0"
    and "0 < length (promises awaitingRedirect)"
    and "promises awaitingRedirect ! 0 = Pending"
    and "state_param emptyCallback = Some (authState awaitingRedirect)"
    and "code_param emptyCallback = None"
    and "error_param emptyCallback = None"
    and "promises awaitingRedirect = [Pending]"
    and "map_option stopServer (authCallbackServer awaitingRedirect)
           = Some \<lparr>server = None, httpServers = [False]\<rparr>"
    by (simp_all add: awaitingRedirect_def emptyCallback_def matchingState_def stopServer_def)
  then show ?thesis
    using callback_without_code_or_error_leaves_promise_pending
            [of awaitingRedirect 0 emptyCallback]
          awaitingRedirect_onlyCurrentListener
    by fastforce
qed

subsection \<open>A settled promise stays settled\<close>

lemma settled_rejectPending:
  "promises s ! p \<noteq> Pending \<Longrightarrow> promises (rejectPending e s) ! p = promises s ! p"
  by (cases "pendingAuthReject s") (simp_all add: rejectPending_def settle_settled)

lemma promises_cleanUp [simp]: "promises (cleanUp s) = promises s"
  by (simp add: cleanUp_def stopListener_def)

lemma promises_stopListener [simp]: "promises (stopListener s) = promises s"
  by (simp add: stopListener_def)

lemma promises_exchange_response [simp]:
  "promises (snd (exchangeCodeForTokens_response out now s)) = promises s"
  by (simp add: exchangeCodeForTokens_response_def split: http_outcome.splits sum.splits)

lemma promises_refreshAccessToken [simp]:
  "promises (snd (refreshAccessToken out now s)) = promises s"
  by (simp add: refreshAccessToken_def Let_def split: option.splits http_outcome.splits sum.splits)

lemma promises_isAuthenticated [simp]:
  "promises (snd (isAuthenticated now out now' s)) = promises s"
  by (simp add: isAuthenticated_def split: option.splits)

lemma settled_authTimeout:
  "promises s ! p \<noteq> Pending \<Longrightarrow> promises (authTimeout s) ! p = promises s ! p"
  by (cases "pendingAuthReject s") (simp_all add: authTimeout_def settle_settled)

lemma settled_begin:
  assumes "promises s ! p \<noteq> Pending"
      and "handleAuthCallback_begin query s = Returned s' \<or>
           handleAuthCallback_begin query s = AwaitingExchange s'"
  shows "promises s' ! p = promises s ! p"
  using assms settled_rejectPending [OF assms(1)]
  by (auto simp: handleAuthCallback_begin_def exchangeCodeForTokens_request_def
      split: if_splits option.splits)

lemma settled_resume:
  assumes "promises s ! p \<noteq> Pending"
  shows "promises (handleAuthCallback_resume out now s) ! p = promises s ! p"
proof (cases "exchangeCodeForTokens_response out now s")
  case (Pair r s1)
  then have s1: "promises s1 = promises s"
    using promises_exchange_response [of out now s] by simp
  with assms have "promises (rejectPending e s1) ! p = promises s ! p" for e
    using settled_rejectPending [of s1 p e] by simp
  moreover have "promises (rejectPending e (s1\<lparr>authStateEvents := evs\<rparr>)) ! p = promises s ! p"
    for e evs
    using settled_rejectPending [of "s1\<lparr>authStateEvents := evs\<rparr>" p e] assms s1
    by simp
  ultimately show ?thesis
    using Pair assms s1
    by (cases r)
       (simp_all add: handleAuthCallback_resume_def Let_def settle_settled split: option.splits)
qed

lemma settled_authenticate:
  assumes "promises s ! p \<noteq> Pending" and "p < length (promises s)"
  shows "promises (snd (authenticate l entropy sha s)) ! p = promises s ! p"
  using assms
  by (auto simp: authenticate_def Let_def openAuthUrl_def nth_append settle_settled
      split: sum.splits)

lemma length_promises_step: "length (promises (service h)) \<le> length (promises (service (step sha ev h)))"
proof (cases ev)
  case (Authenticate l entropy)
  then show ?thesis
    by (auto simp: step_def authenticate_def Let_def openAuthUrl_def split: sum.splits)
next
  case TimeoutFires
  then show ?thesis
    by (cases "pendingAuthReject (service h)") (simp_all add: step_def authTimeout_def)
next
  case (UriCallback query)
  then show ?thesis
    by (auto simp: step_def handleAuthCallback_begin_def rejectPending_def
        exchangeCodeForTokens_request_def split: option.splits)
next
  case (ExchangeAnswer out now)
  have "length (promises (handleAuthCallback_resume out now s)) = length (promises s)" for s
  proof (cases "exchangeCodeForTokens_response out now s")
    case (Pair r s1)
    then have "promises s1 = promises s"
      using promises_exchange_response [of out now s] by simp
    with Pair show ?thesis
      by (cases r)
         (simp_all add: handleAuthCallback_resume_def Let_def rejectPending_def
            split: option.splits)
  qed
  with ExchangeAnswer show ?thesis
    by (cases "waiting h") (simp_all add: step_def)
next
  case (CheckAuthenticated now out now')
  then show ?thesis by (simp add: step_def)
next
  case Dispose
  then show ?thesis by (simp add: step_def dispose_def)
qed

lemma settled_step:
  assumes "promises (service h) ! p \<noteq> Pending" and "p < length (promises (service h))"
  shows "promises (service (step sha ev h)) ! p = promises (service h) ! p"
proof (cases ev)
  case (Authenticate l entropy)
  then show ?thesis
    using settled_authenticate [OF assms, of l entropy sha] by (simp add: step_def)
next
  case TimeoutFires
  then show ?thesis
    using settled_authTimeout [OF assms(1)] by (simp add: step_def)
next
  case (UriCallback query)
  then show ?thesis
    using settled_begin [OF assms(1), of query]
    by (cases "handleAuthCallback_begin query (service h)") (simp_all add: step_def)
next
  case (ExchangeAnswer out now)
  then show ?thesis
    using settled_resume [OF assms(1), of out now]
    by (cases "waiting h") (simp_all add: step_def)
next
  case (CheckAuthenticated now out now')
  then show ?thesis by (simp add: step_def)
next
  case Dispose
  then show ?thesis by (simp add: step_def dispose_def)
qed

text \<open>Whatever happens later, a promise that has been settled keeps its outcome.\<close>

lemma settled_run:
  "promises (service h) ! p \<noteq> Pending \<Longrightarrow> p < length (promises (service h)) \<Longrightarrow>
   promises (service (run sha evs h)) ! p = promises (service h) ! p"
proof (induction evs arbitrary: h)
  case Nil
  show ?case by simp
next
  case (Cons ev evs)
  have same: "promises (service (step sha ev h)) ! p = promises (service h) ! p"
    using Cons.prems by (rule settled_step)
  have "p < length (promises (service (step sha ev h)))"
    using Cons.prems(2) length_promises_step [of h sha ev] by linarith
  with Cons.IH [of "step sha ev h"] same Cons.prems(1) show ?case by simp
qed

subsection \<open>Callbacks delivered twice\<close>

lemma stopServer_twice: "stopServer (stopServer a) = stopServer a"
  by (cases "server a") (simp_all add: stopServer_def)

lemma cleanUp_twice: "cleanUp (cleanUp s) = cleanUp s"
  by (cases "authCallbackServer s") (simp_all add: cleanUp_def stopListener_def stopServer_twice)

lemma authState_resume: "authState (handleAuthCallback_resume out now s) = authState s"
  by (simp add: handleAuthCallback_resume_def exchangeCodeForTokens_response_def Let_def
      cleanUp_def stopListener_def rejectPending_def
      split: http_outcome.splits sum.splits option.splits)

lemma resume_ends_in_cleanUp: "\<exists>x. handleAuthCallback_resume out now s = cleanUp x"
  by (auto simp: handleAuthCallback_resume_def Let_def split: prod.splits sum.splits option.splits)

lemma begin_after_cleanUp:
  assumes "state_param query = Some (authState (cleanUp x))"
  shows "handleAuthCallback_begin query (cleanUp x) = Returned (cleanUp x)"
proof -
  have "pendingAuthResolve (cleanUp x) = None" "pendingAuthReject (cleanUp x) = None"
    by (simp_all add: cleanUp_def stopListener_def)
  with assms show ?thesis
    by (simp add: handleAuthCallback_begin_def cleanUp_twice)
qed

text \<open>
  When the second invocation starts after the first has finished, it finds the
  continuations cleared and changes nothing: one token request in all.
\<close>

lemma second_callback_after_first_finished:
  assumes "state_param query = Some (authState s)"
      and "code_param query = Some c" and "c \<noteq> []"
      and "pendingAuthResolve s \<noteq> None"
  shows "handleAuthCallback query out' now' (handleAuthCallback query out now s)
           = handleAuthCallback query out now s \<and>
         tokenRequests (handleAuthCallback query out now s)
           = tokenRequests s @
               [AuthorizationCodeGrant c (redirectUri s) (getClientId s) (codeVerifier s)]"
proof -
  define s1 where "s1 = exchangeCodeForTokens_request c s"
  have first: "handleAuthCallback query out now s = handleAuthCallback_resume out now s1"
    using assms by (simp add: handleAuthCallback_def handleAuthCallback_begin_def truthy_def s1_def)
  obtain x where x: "handleAuthCallback_resume out now s1 = cleanUp x"
    using resume_ends_in_cleanUp by blast
  have "authState (cleanUp x) = authState s1"
    using authState_resume [of out now s1] unfolding x .
  then have "authState (cleanUp x) = authState s"
    by (simp add: s1_def exchangeCodeForTokens_request_def)
  with assms(1) have "handleAuthCallback_begin query (cleanUp x) = Returned (cleanUp x)"
    by (intro begin_after_cleanUp) simp
  then have second: "handleAuthCallback query out' now' (cleanUp x) = cleanUp x"
    by (simp add: handleAuthCallback_def)
  have "tokenRequests (handleAuthCallback_resume out now s1) = tokenRequests s1"
    by (simp add: handleAuthCallback_resume_def exchangeCodeForTokens_response_def Let_def
        cleanUp_def stopListener_def rejectPending_def
        split: http_outcome.splits sum.splits option.splits)
  then show ?thesis
    using first x second by (simp add: s1_def exchangeCodeForTokens_request_def)
qed

text \<open>
  After the timeout has rejected the session, a callback changes nothing, whatever its
  state parameter (one with another state shows the security message and no more).
\<close>

lemma callback_after_timeout:
  assumes "pendingAuthReject s \<noteq> None"
  shows "handleAuthCallback query out now (authTimeout s) = authTimeout s"
proof -
  obtain p where p: "pendingAuthReject s = Some p"
    using assms by blast
  define x where
    "x = s\<lparr>promises := settle p (Rejected (newError ''Authentication timeout'')) (promises s)\<rparr>"
  have t: "authTimeout s = cleanUp x"
    by (simp add: authTimeout_def p x_def cleanUp_def stopListener_def)
  have match: "handleAuthCallback query out now (cleanUp x) = cleanUp x"
    if "state_param query = Some (authState (cleanUp x))"
    using begin_after_cleanUp [of query x] that by (simp add: handleAuthCallback_def)
  have "stopListener (cleanUp x) = cleanUp x"
    by (cases "authCallbackServer x") (simp_all add: cleanUp_def stopListener_def stopServer_twice)
  then have mismatch: "handleAuthCallback query out now (cleanUp x) = cleanUp x"
    if "state_param query \<noteq> Some (authState (cleanUp x))"
    using that
    by (simp add: handleAuthCallback_def handleAuthCallback_begin_def rejectPending_def
        cleanUp_def stopListener_def)
  show ?thesis
    using match mismatch t by metis
qed

text \<open>
  C2. Two deliveries of the same callback, the second while the first still waits for
  its exchange: both find \<^verbatim>\<open>pendingAuthResolve\<close> set, since it is cleared only after the
  \<^verbatim>\<open>await\<close>, and both post the code to the token endpoint. When the answers arrive, the
  first fulfils the promise; the second, refused by the provider, finds the continuations
  cleared and leaves the promise fulfilled.
\<close>

theorem overlapping_callbacks_request_tokens_twice:
  "tokenRequests (service (run constantDigest [UriCallback codeCallback, UriCallback codeCallback]
       \<lparr>service = awaitingRedirect, waiting = 0\<rparr>)) = [codeGrant, codeGrant] \<and>
   waiting (run constantDigest [UriCallback codeCallback, UriCallback codeCallback]
       \<lparr>service = awaitingRedirect, waiting = 0\<rparr>) = 2 \<and>
   promises (service (run constantDigest
       [UriCallback codeCallback, UriCallback codeCallback,
        ExchangeAnswer tokenAnswer 1700000000000, ExchangeAnswer codeAlreadyUsed 1700000000100]
       \<lparr>service = awaitingRedirect, waiting = 0\<rparr>)) = [Fulfilled] \<and>
   tokenRequests (service (run constantDigest
       [UriCallback codeCallback, UriCallback codeCallback,
        ExchangeAnswer tokenAnswer 1700000000000, ExchangeAnswer codeAlreadyUsed 1700000000100]
       \<lparr>service = awaitingRedirect, waiting = 0\<rparr>)) = [codeGrant, codeGrant]"
proof -
  define s1 where "s1 = exchangeCodeForTokens_request ''abc123'' awaitingRedirect"
  define s2 where "s2 = exchangeCodeForTokens_request ''abc123'' s1"
  have b1: "handleAuthCallback_begin codeCallback awaitingRedirect = AwaitingExchange s1"
    by (simp add: handleAuthCallback_begin_def codeCallback_def matchingState_def
        awaitingRedirect_def truthy_def s1_def)
  have b2: "handleAuthCallback_begin codeCallback s1 = AwaitingExchange s2"
    by (simp add: handleAuthCallback_begin_def codeCallback_def matchingState_def
        awaitingRedirect_def truthy_def s1_def s2_def exchangeCodeForTokens_request_def)
  have two: "run constantDigest [UriCallback codeCallback, UriCallback codeCallback]
       \<lparr>service = awaitingRedirect, waiting = 0\<rparr> = \<lparr>service = s2, waiting = 2\<rparr>"
    by (simp add: step_def b1 b2)
  have reqs: "tokenRequests s2 = [codeGrant, codeGrant]"
    by (simp add: s2_def s1_def exchangeCodeForTokens_request_def awaitingRedirect_def
        getClientId_def truthy_def codeGrant_def)
  define s3 where "s3 = handleAuthCallback_resume tokenAnswer 1700000000000 s2"
  define s4 where "s4 = handleAuthCallback_resume codeAlreadyUsed 1700000000100 s3"
  have four: "run constantDigest
       [UriCallback codeCallback, UriCallback codeCallback,
        ExchangeAnswer tokenAnswer 1700000000000, ExchangeAnswer codeAlreadyUsed 1700000000100]
       \<lparr>service = awaitingRedirect, waiting = 0\<rparr> = \<lparr>service = s4, waiting = 0\<rparr>"
    by (simp add: step_def b1 b2 s3_def s4_def)
  have s3: "promises s3 = [Fulfilled] \<and> pendingAuthReject s3 = None \<and>
      tokenRequests s3 = tokenRequests s2"
    by (simp add: s3_def s2_def s1_def handleAuthCallback_resume_def tokenAnswer_def
        exchangeCodeForTokens_response_def exchangeCodeForTokens_request_def Let_def
        awaitingRedirect_def cleanUp_def stopListener_def settle_def)
  have s4: "promises s4 = promises s3 \<and> tokenRequests s4 = tokenRequests s3"
    using s3
    by (simp add: s4_def handleAuthCallback_resume_def codeAlreadyUsed_def
        exchangeCodeForTokens_response_def cleanUp_def stopListener_def rejectPending_def)
  show ?thesis
    using two four reqs s3 s4 by simp
qed

section \<open>Properties of the token lifecycle\<close>

text \<open>
  C8. A refresh that succeeds on a response without a new refresh token stores the
  response's access token, leaves the stored refresh token as it was, and sets the stored
  expiry to the clock reading of the response handler plus the reported lifetime, in
  milliseconds: \<open>now + expires_in * 1000\<close>.
\<close>

theorem refresh_keeps_refresh_token:
  assumes "refreshAccessToken (Response statusCode body (Inr tokenData)) now s = (True, s')"
      and "refresh_token tokenData = None"
  shows "secrets s' REFRESH_TOKEN_KEY = secrets s REFRESH_TOKEN_KEY \<and>
         secrets s' ACCESS_TOKEN_KEY = Some (access_token tokenData) \<and>
         secrets s' = (secrets s)(ACCESS_TOKEN_KEY \<mapsto> access_token tokenData) \<and>
         globalState s' TOKEN_EXPIRY_KEY = Some (now + expires_in tokenData * 1000)"
  using assms
  by (auto simp: refreshAccessToken_def Let_def truthy_def ACCESS_TOKEN_KEY_def
      REFRESH_TOKEN_KEY_def split: option.splits if_splits)

theorem refresh_keeps_refresh_token_witness:
  "fst (refreshAccessToken refreshAnswer 1700000000000 (withTokens 1700000060000)) = True \<and>
   secrets (snd (refreshAccessToken refreshAnswer 1700000000000 (withTokens 1700000060000)))
     REFRESH_TOKEN_KEY = Some ''RT'' \<and>
   secrets (snd (refreshAccessToken refreshAnswer 1700000000000 (withTokens 1700000060000)))
     ACCESS_TOKEN_KEY = Some ''AT2'' \<and>
   globalState (snd (refreshAccessToken refreshAnswer 1700000000000 (withTokens 1700000060000)))
     TOKEN_EXPIRY_KEY = Some 1700003600000"
proof -
  have ok: "fst (refreshAccessToken refreshAnswer 1700000000000 (withTokens 1700000060000)) = True"
    by (simp add: refreshAccessToken_def refreshAnswer_def withTokens_def newSpotifyService_def
        Let_def ACCESS_TOKEN_KEY_def REFRESH_TOKEN_KEY_def)
  then have run: "refreshAccessToken
        (Response 200 ''{\"access_token\":\"AT2\",\"expires_in\":3600}''
           (Inr \<lparr>access_token = ''AT2'', refresh_token = None, expires_in = 3600\<rparr>))
        1700000000000 (withTokens 1700000060000)
      = (True, snd (refreshAccessToken refreshAnswer 1700000000000 (withTokens 1700000060000)))"
    by (simp add: refreshAnswer_def prod_eq_iff)
  have old: "secrets (withTokens 1700000060000) REFRESH_TOKEN_KEY = Some ''RT''"
    by (simp add: withTokens_def newSpotifyService_def)
  have keys: "REFRESH_TOKEN_KEY \<noteq> ACCESS_TOKEN_KEY"
    by (simp add: ACCESS_TOKEN_KEY_def REFRESH_TOKEN_KEY_def)
  show ?thesis
    using refresh_keeps_refresh_token [OF run] ok old keys by simp
qed

text \<open>
  With both values stored and the expiry exactly 300000 ms after \<open>now\<close>, which is not
  more than the buffer ahead, \<^verbatim>\<open>isAuthenticated\<close> answers \<^verbatim>\<open>true\<close> and sends nothing,
  where a refresh on that state would have sent a request and, the network failing,
  answered \<^verbatim>\<open>false\<close>.
\<close>

theorem isAuthenticated_at_buffer_counterexample:
  "\<not> (1700000000000 + 300000 < (1700000300000 :: int)) \<and>
   secrets (withTokens 1700000300000) ACCESS_TOKEN_KEY = Some ''AT'' \<and>
   globalState (withTokens 1700000300000) TOKEN_EXPIRY_KEY = Some 1700000300000 \<and>
   isAuthenticated 1700000000000 networkFailure 1700000000200 (withTokens 1700000300000)
     = (True, withTokens 1700000300000) \<and>
   fst (refreshAccessToken networkFailure 1700000000200 (withTokens 1700000300000)) = False \<and>
   tokenRequests (snd (refreshAccessToken networkFailure 1700000000200 (withTokens 1700000300000)))
     = [RefreshTokenGrant ''RT'' ''c8bb1453d9954a9db7cceb166fdeb4d5''] \<and>
   tokenRequests (withTokens 1700000300000) = [] \<and>
   isAuthenticated 1700000000000 networkFailure 1700000000200 (withTokens 1700000300000)
     \<noteq> refreshAccessToken networkFailure 1700000000200 (withTokens 1700000300000)"
proof -
  have stored: "secrets (withTokens 1700000300000) ACCESS_TOKEN_KEY = Some ''AT'' \<and>
      globalState (withTokens 1700000300000) TOKEN_EXPIRY_KEY = Some 1700000300000 \<and>
      tokenRequests (withTokens 1700000300000) = []"
    by (simp add: withTokens_def newSpotifyService_def ACCESS_TOKEN_KEY_def REFRESH_TOKEN_KEY_def)
  then have valid:
    "isAuthenticated 1700000000000 networkFailure 1700000000200 (withTokens 1700000300000)
       = (True, withTokens 1700000300000)"
    by (simp add: isAuthenticated_def truthy_def)
  have refresh:
    "fst (refreshAccessToken networkFailure 1700000000200 (withTokens 1700000300000)) = False \<and>
     tokenRequests (snd (refreshAccessToken networkFailure 1700000000200 (withTokens 1700000300000)))
       = [RefreshTokenGrant ''RT'' ''c8bb1453d9954a9db7cceb166fdeb4d5'']"
    by (simp add: refreshAccessToken_def networkFailure_def withTokens_def newSpotifyService_def
        Let_def ACCESS_TOKEN_KEY_def REFRESH_TOKEN_KEY_def getClientId_def truthy_def)
  then have differ:
    "isAuthenticated 1700000000000 networkFailure 1700000000200 (withTokens 1700000300000)
       \<noteq> refreshAccessToken networkFailure 1700000000200 (withTokens 1700000300000)"
    using valid by (metis fst_conv)
  show ?thesis
    using stored valid refresh differ by simp
qed

text \<open>
  C5, amended. \<^verbatim>\<open>isAuthenticated\<close> answers \<^verbatim>\<open>false\<close>, without a refresh, when the access
  token or the expiry is not stored. With both stored (a non-empty token, a non-zero
  expiry) it answers \<^verbatim>\<open>true\<close>, again without a refresh, when the expiry lies at least
  300000 ms after \<open>now\<close>; and when the expiry lies less than 300000 ms after \<open>now\<close> it is
  the refresh, with its answer and its effects.
\<close>

theorem isAuthenticated_cases:
  "(secrets s ACCESS_TOKEN_KEY = None \<or> globalState s TOKEN_EXPIRY_KEY = None \<longrightarrow>
      isAuthenticated now out now' s = (False, s)) \<and>
   (secrets s ACCESS_TOKEN_KEY = Some token \<and> token \<noteq> [] \<and>
    globalState s TOKEN_EXPIRY_KEY = Some expiry \<and> 0 \<le> now \<and> now + 300000 \<le> expiry \<longrightarrow>
      isAuthenticated now out now' s = (True, s)) \<and>
   (secrets s ACCESS_TOKEN_KEY = Some token \<and> token \<noteq> [] \<and>
    globalState s TOKEN_EXPIRY_KEY = Some expiry \<and> expiry \<noteq> 0 \<and> expiry < now + 300000 \<longrightarrow>
      isAuthenticated now out now' s = refreshAccessToken out now' s)"
  by (auto simp: isAuthenticated_def truthy_def split: option.splits)

theorem isAuthenticated_cases_witness:
  "isAuthenticated 1700000000000 refreshAnswer 1700000000200
      (newSpotifyService [] None Map.empty Map.empty)
     = (False, newSpotifyService [] None Map.empty Map.empty) \<and>
   isAuthenticated 1700000000000 refreshAnswer 1700000000200 (withTokens 1700000600000)
     = (True, withTokens 1700000600000) \<and>
   isAuthenticated 1700000000000 refreshAnswer 1700000000200 (withTokens 1700000300000)
     = (True, withTokens 1700000300000) \<and>
   isAuthenticated 1700000000000 refreshAnswer 1700000000200 (withTokens 1700000060000)
     = refreshAccessToken refreshAnswer 1700000000200 (withTokens 1700000060000) \<and>
   fst (refreshAccessToken refreshAnswer 1700000000200 (withTokens 1700000060000)) = True \<and>
   tokenRequests (snd (refreshAccessToken refreshAnswer 1700000000200 (withTokens 1700000060000)))
     = [RefreshTokenGrant ''RT'' ''c8bb1453d9954a9db7cceb166fdeb4d5'']"
proof -
  have absent: "secrets (newSpotifyService [] None Map.empty Map.empty) ACCESS_TOKEN_KEY = None"
    by (simp add: newSpotifyService_def)
  have stored: "secrets (withTokens e) ACCESS_TOKEN_KEY = Some ''AT'' \<and> ''AT'' \<noteq> [] \<and>
      globalState (withTokens e) TOKEN_EXPIRY_KEY = Some e" for e
    by (simp add: withTokens_def newSpotifyService_def ACCESS_TOKEN_KEY_def REFRESH_TOKEN_KEY_def)
  have refreshed:
    "fst (refreshAccessToken refreshAnswer 1700000000200 (withTokens 1700000060000)) = True \<and>
     tokenRequests (snd (refreshAccessToken refreshAnswer 1700000000200 (withTokens 1700000060000)))
       = [RefreshTokenGrant ''RT'' ''c8bb1453d9954a9db7cceb166fdeb4d5'']"
    by (simp add: refreshAccessToken_def refreshAnswer_def withTokens_def newSpotifyService_def
        Let_def ACCESS_TOKEN_KEY_def REFRESH_TOKEN_KEY_def getClientId_def truthy_def)
  show ?thesis
    using isAuthenticated_cases
            [of "newSpotifyService [] None Map.empty Map.empty" 1700000000000 refreshAnswer
                1700000000200]
          isAuthenticated_cases
            [of "withTokens 1700000600000" 1700000000000 refreshAnswer 1700000000200 "''AT''"
                1700000600000]
          isAuthenticated_cases
            [of "withTokens 1700000300000" 1700000000000 refreshAnswer 1700000000200 "''AT''"
                1700000300000]
          isAuthenticated_cases
            [of "withTokens 1700000060000" 1700000000000 refreshAnswer 1700000000200 "''AT''"
                1700000060000]
          absent stored [of 1700000600000] stored [of 1700000300000] stored [of 1700000060000]
          refreshed
    by simp
qed

end
